theory Spec2Isabelle
  imports Complex_Main "HOL-Library.Sublist" "HOL-Library.Multiset"
begin

section \<open>Graph model\<close>

text \<open>
  A pin as the generator's JSON carries it and as the normalizer injects it:
  \<^verbatim>\<open>{ id, name, type }\<close>. The type is kept as the string the JSON holds
  (\<^verbatim>\<open>'exec'\<close>, \<^verbatim>\<open>'boolean'\<close>, ...), since the code compares strings.
  An absent \<^verbatim>\<open>id\<close> behaves like the empty string wherever the code looks at it
  (both are falsy and never equal a truthy handle).
\<close>

record pin =
  pin_id :: string
  pin_name :: string
  pin_type :: string

text \<open>
  A raw node of the parsed JSON. The fields the normalizer tests for absence are options:
  \<^verbatim>\<open>node.label || ""\<close>, \<^verbatim>\<open>if (!node.inputs) node.inputs = []\<close>.
\<close>

record raw_node =
  node_id :: string
  label :: "string option"
  nodeType :: "string option"
  inputs :: "pin list option"
  outputs :: "pin list option"

section \<open>Schema normalizer: \<^verbatim>\<open>ensureDefaultPins\<close>\<close>

text \<open>JavaScript's \<^verbatim>\<open>s.startsWith(p)\<close> and \<^verbatim>\<open>s.includes(p)\<close>.\<close>

definition startsWith :: "string \<Rightarrow> string \<Rightarrow> bool" where
  "startsWith s p = prefix p s"

definition includes_str :: "string \<Rightarrow> string \<Rightarrow> bool" where
  "includes_str s p = sublist p s"

text \<open>\<^verbatim>\<open>ps.some(p => p.type === t)\<close> and \<^verbatim>\<open>ps.some(p => p.name === n)\<close>.\<close>

definition some_type :: "string \<Rightarrow> pin list \<Rightarrow> bool" where
  "some_type t ps = list_ex (\<lambda>p. pin_type p = t) ps"

definition some_name :: "string \<Rightarrow> pin list \<Rightarrow> bool" where
  "some_name n ps = list_ex (\<lambda>p. pin_name p = n) ps"

text \<open>The injected pin \<^verbatim>\<open>{ id: `${node.id}_Suffix`, name, type }\<close>.\<close>

definition mk_pin :: "string \<Rightarrow> string \<Rightarrow> string \<Rightarrow> string \<Rightarrow> pin" where
  "mk_pin nid sfx nm ty = \<lparr>pin_id = nid @ ''_'' @ sfx, pin_name = nm, pin_type = ty\<rparr>"

text \<open>\<^verbatim>\<open>if (!ps.some(p => p.type === t)) ps.unshift(pin)\<close>.\<close>

definition unshift_unless_type :: "string \<Rightarrow> pin \<Rightarrow> pin list \<Rightarrow> pin list" where
  "unshift_unless_type t p ps = (if some_type t ps then ps else p # ps)"

text \<open>\<^verbatim>\<open>if (!ps.some(p => p.type === t)) ps.push(pin)\<close>.\<close>

definition push_unless_type :: "string \<Rightarrow> pin \<Rightarrow> pin list \<Rightarrow> pin list" where
  "push_unless_type t p ps = (if some_type t ps then ps else ps @ [p])"

text \<open>\<^verbatim>\<open>if (!ps.some(p => p.name === n)) ps.push(pin)\<close>.\<close>

definition push_unless_name :: "string \<Rightarrow> pin \<Rightarrow> pin list \<Rightarrow> pin list" where
  "push_unless_name n p ps = (if some_name n ps then ps else ps @ [p])"

definition isLikelyPure :: "string option \<Rightarrow> string \<Rightarrow> bool" where
  "isLikelyPure ty l =
     (ty = Some ''variable_get'' \<or>
      startsWith l ''Get '' \<or>
      startsWith l ''Make '' \<or>
      startsWith l ''Break '' \<or>
      startsWith l ''Is '' \<or>
      startsWith l ''Find '' \<or>
      startsWith l ''Select '' \<or>
      includes_str l ''Math'' \<or>
      includes_str l ''+'' \<or>
      includes_str l ''-'')"

text \<open>The condition of the second test of the source, the event rule.\<close>

definition is_event_like :: "string option \<Rightarrow> string \<Rightarrow> bool" where
  "is_event_like ty l =
     (ty = Some ''event'' \<or> startsWith l ''Event'' \<or> startsWith l ''On '' \<or>
      startsWith l ''Input'')"

text \<open>
  The pins and the label of a node, an absent field read as the empty one
  (\<^verbatim>\<open>node.label || ""\<close>, \<^verbatim>\<open>if (!node.inputs) node.inputs = []\<close>).
\<close>

definition ins_of :: "raw_node \<Rightarrow> pin list" where
  "ins_of n = (case inputs n of None \<Rightarrow> [] | Some ps \<Rightarrow> ps)"

definition outs_of :: "raw_node \<Rightarrow> pin list" where
  "outs_of n = (case outputs n of None \<Rightarrow> [] | Some ps \<Rightarrow> ps)"

definition label_of :: "raw_node \<Rightarrow> string" where
  "label_of n = (case label n of None \<Rightarrow> [] | Some s \<Rightarrow> s)"

text \<open>
  The source mutates \<^verbatim>\<open>node.inputs\<close> and \<^verbatim>\<open>node.outputs\<close> in place and returns
  the node; the model returns the updated record. The seven tests are in the order of the
  source, each ending in \<^verbatim>\<open>return node\<close>.
\<close>

definition ensureDefaultPins :: "raw_node \<Rightarrow> raw_node" where
  "ensureDefaultPins node =
     (let l = label_of node;
          ty = nodeType node;
          nid = node_id node;
          ins = ins_of node;
          outs = outs_of node
      in
      if l = ''Branch'' \<or> l = ''If'' then
        node\<lparr>inputs := Some (push_unless_type ''boolean'' (mk_pin nid ''Condition'' ''Condition'' ''boolean'')
                          (unshift_unless_type ''exec'' (mk_pin nid ''Exec'' ''Exec'' ''exec'') ins)),
             outputs := Some (push_unless_name ''False'' (mk_pin nid ''False'' ''False'' ''exec'')
                          (push_unless_name ''True'' (mk_pin nid ''True'' ''True'' ''exec'') outs))\<rparr>
      else if is_event_like ty l then
        node\<lparr>inputs := Some ins,
             outputs := Some (unshift_unless_type ''exec'' (mk_pin nid ''Output'' ''Output'' ''exec'') outs)\<rparr>
      else if l = ''Sequence'' then
        node\<lparr>inputs := Some (unshift_unless_type ''exec'' (mk_pin nid ''Exec'' ''Exec'' ''exec'') ins),
             outputs := Some (if length outs < 2
                              then outs @ [mk_pin nid ''Then0'' ''Then 0'' ''exec'',
                                           mk_pin nid ''Then1'' ''Then 1'' ''exec'']
                              else outs)\<rparr>
      else if ty = Some ''variable_set'' \<or> startsWith l ''Set '' then
        node\<lparr>inputs := Some (unshift_unless_type ''exec'' (mk_pin nid ''Exec'' ''Exec'' ''exec'') ins),
             outputs := Some (unshift_unless_type ''exec'' (mk_pin nid ''Output'' ''Output'' ''exec'') outs)\<rparr>
      else if ty = Some ''variable_get'' then
        (let (ins1, outs1) = (if length ins > 0 \<and> length outs = 0 then ([], ins) else (ins, outs));
             outs2 = (if length outs1 = 0
                      then outs1 @ [mk_pin nid ''Value'' ''Value'' ''boolean''] else outs1)
         in node\<lparr>inputs := Some ins1, outputs := Some outs2\<rparr>)
      else if l = ''For Loop'' \<or> l = ''ForEach Loop'' then
        node\<lparr>inputs := Some (unshift_unless_type ''exec'' (mk_pin nid ''Exec'' ''Exec'' ''exec'') ins),
             outputs := Some (push_unless_name ''Completed'' (mk_pin nid ''Completed'' ''Completed'' ''exec'')
                          (push_unless_name ''Loop Body'' (mk_pin nid ''LoopBody'' ''Loop Body'' ''exec'') outs))\<rparr>
      else if \<not> isLikelyPure ty l \<and> ty \<noteq> Some ''comment'' \<and> ty \<noteq> Some ''variable_get'' then
        node\<lparr>inputs := Some (unshift_unless_type ''exec'' (mk_pin nid ''Exec'' ''Exec'' ''exec'') ins),
             outputs := Some (unshift_unless_type ''exec'' (mk_pin nid ''Output'' ''Output'' ''exec'') outs)\<rparr>
      else node\<lparr>inputs := Some ins, outputs := Some outs\<rparr>)"

text \<open>
  Which of the tests of \<^verbatim>\<open>ensureDefaultPins\<close> fires, in the order of the source: the
  rule the normalizer applies to a node. Lemmas \<open>ins_of_ensureDefaultPins\<close> and
  \<open>outs_of_ensureDefaultPins\<close> below tie it to the function.
\<close>

datatype category = Branch | Event | Sequence | VariableSet | VariableGet | ForLoop
  | GenericImpure | GenericPure

definition classify :: "raw_node \<Rightarrow> category" where
  "classify node =
     (let l = label_of node; ty = nodeType node in
      if l = ''Branch'' \<or> l = ''If'' then Branch
      else if is_event_like ty l then Event
      else if l = ''Sequence'' then Sequence
      else if ty = Some ''variable_set'' \<or> startsWith l ''Set '' then VariableSet
      else if ty = Some ''variable_get'' then VariableGet
      else if l = ''For Loop'' \<or> l = ''ForEach Loop'' then ForLoop
      else if \<not> isLikelyPure ty l \<and> ty \<noteq> Some ''comment'' \<and> ty \<noteq> Some ''variable_get''
      then GenericImpure
      else GenericPure)"

text \<open>\<^verbatim>\<open>ps.filter(p => p.type === t).length\<close>, the number of pins of a type.\<close>

definition count_type :: "string \<Rightarrow> pin list \<Rightarrow> nat" where
  "count_type t ps = length (filter (\<lambda>p. pin_type p = t) ps)"

text \<open>Example nodes, as the generator's JSON could hold them.\<close>

definition data_pin :: "string \<Rightarrow> string \<Rightarrow> string \<Rightarrow> pin" where
  "data_pin i nm ty = \<lparr>pin_id = i, pin_name = nm, pin_type = ty\<rparr>"

definition sequence_two_data_outputs :: raw_node where
  "sequence_two_data_outputs =
     \<lparr>node_id = ''Seq1'', label = Some ''Sequence'', nodeType = Some ''flow_control'',
      inputs = Some [],
      outputs = Some [data_pin ''Seq1_A'' ''A'' ''integer'', data_pin ''Seq1_B'' ''B'' ''integer'']\<rparr>"

definition branch_empty :: raw_node where
  "branch_empty =
     \<lparr>node_id = ''B1'', label = Some ''Branch'', nodeType = None, inputs = Some [], outputs = Some []\<rparr>"

definition branch_two_exec_inputs :: raw_node where
  "branch_two_exec_inputs =
     \<lparr>node_id = ''B2'', label = Some ''Branch'', nodeType = Some ''flow_control'',
      inputs = Some [data_pin ''B2_In1'' ''In 1'' ''exec'', data_pin ''B2_In2'' ''In 2'' ''exec''],
      outputs = Some []\<rparr>"

definition event_labelled_branch :: raw_node where
  "event_labelled_branch =
     \<lparr>node_id = ''E1'', label = Some ''Branch'', nodeType = Some ''event'',
      inputs = Some [], outputs = Some []\<rparr>"

definition event_begin_play :: raw_node where
  "event_begin_play =
     \<lparr>node_id = ''Event1'', label = Some ''Event BeginPlay'', nodeType = Some ''event'',
      inputs = None, outputs = None\<rparr>"

definition getter_with_inputs :: raw_node where
  "getter_with_inputs =
     \<lparr>node_id = ''G1'', label = Some ''Health'', nodeType = Some ''variable_get'',
      inputs = Some [data_pin ''G1_Health'' ''Health'' ''float''], outputs = Some []\<rparr>"

definition print_string :: raw_node where
  "print_string =
     \<lparr>node_id = ''P1'', label = Some ''Print String'', nodeType = Some ''function'',
      inputs = Some [data_pin ''P1_Text'' ''In String'' ''string''], outputs = None\<rparr>"


section \<open>Edge resolver: the node and edge mapping of \<^verbatim>\<open>generateBlueprint\<close>\<close>

text \<open>
  The part of \<^verbatim>\<open>generateBlueprint\<close> after the response has been parsed: every raw node
  is normalized and wrapped into a canvas node, every raw edge is resolved against the
  wrapped nodes or dropped. The request itself and the JSON clean-up before it are not
  modelled.

  A number of the source (\<^verbatim>\<open>position.x\<close>, \<^verbatim>\<open>position.y\<close>, the barycenters of the
  layout) is modelled as an exact rational: sums, one division by a positive count and
  comparisons, without the rounding of IEEE doubles.
\<close>

record point =
  pos_x :: rat
  pos_y :: rat

record node_data =
  d_label :: "string option"
  d_nodeType :: "string option"
  d_inputs :: "pin list"
  d_outputs :: "pin list"

text \<open>
  A canvas node (\<^verbatim>\<open>BPNode\<close>): id, position and data. The constant field
  \<^verbatim>\<open>type: 'customBlueprintNode'\<close> and the comment are left out.
\<close>

record bp_node =
  bp_id :: string
  position :: point
  data :: node_data

definition transformNode :: "raw_node \<Rightarrow> bp_node" where
  "transformNode node =
     (let enrichedNode = ensureDefaultPins node in
      \<lparr>bp_id = node_id enrichedNode,
       position = \<lparr>pos_x = 0, pos_y = 0\<rparr>,
       data = \<lparr>d_label = label enrichedNode,
               d_nodeType = nodeType enrichedNode,
               d_inputs = ins_of enrichedNode,
               d_outputs = outs_of enrichedNode\<rparr>\<rparr>)"

definition transformedNodes :: "raw_node list \<Rightarrow> bp_node list" where
  "transformedNodes nodes = map transformNode nodes"

text \<open>A raw edge of the parsed JSON; the id and the two handles may be absent.\<close>

record raw_edge =
  e_id :: "string option"
  e_source :: string
  e_target :: string
  e_sourceHandle :: "string option"
  e_targetHandle :: "string option"

text \<open>
  A resolved edge (\<^verbatim>\<open>BPEdge\<close>). The handles are what the source stores in
  \<^verbatim>\<open>sourceHandle\<close> and \<^verbatim>\<open>targetHandle\<close>; the constant fields
  \<^verbatim>\<open>type: 'default'\<close> and \<^verbatim>\<open>animated: false\<close> are left out.
\<close>

record bp_edge =
  be_id :: string
  be_source :: string
  be_target :: string
  be_sourceHandle :: string
  be_targetHandle :: string

text \<open>
  JavaScript truthiness of an optional string: \<^verbatim>\<open>undefined\<close> and \<^verbatim>\<open>""\<close> are
  falsy.
\<close>

definition truthy :: "string option \<Rightarrow> bool" where
  "truthy h = (case h of None \<Rightarrow> False | Some s \<Rightarrow> s \<noteq> [])"

definition falsy :: "string option \<Rightarrow> bool" where
  "falsy h = (case h of None \<Rightarrow> True | Some s \<Rightarrow> s = [])"

text \<open>\<^verbatim>\<open>String(h).toLowerCase()\<close>, on the ASCII letters.\<close>

definition lower_char :: "char \<Rightarrow> char" where
  "lower_char c =
     (case map_of (zip ''ABCDEFGHIJKLMNOPQRSTUVWXYZ'' ''abcdefghijklmnopqrstuvwxyz'') c of
        None \<Rightarrow> c | Some d \<Rightarrow> d)"

definition toLowerCase :: "string \<Rightarrow> string" where
  "toLowerCase s = map lower_char s"

text \<open>
  \<^verbatim>\<open>pins.find(p => p.type === 'exec')\<close>, and the first pin \<^verbatim>\<open>pins[0]\<close> guarded by
  \<^verbatim>\<open>pins.length > 0\<close>.
\<close>

definition find_exec :: "pin list \<Rightarrow> pin option" where
  "find_exec pins = find (\<lambda>p. pin_type p = ''exec'') pins"

definition first_pin :: "pin list \<Rightarrow> pin option" where
  "first_pin pins = (case pins of [] \<Rightarrow> None | p # _ \<Rightarrow> Some p)"

text \<open>
  The rebinding of a handle that names no pin of the node, shared by the two sides: to the
  first Exec pin when the declared handle is exec-like and there is one, else to the first
  pin when there is one, else the handle stays as declared.
\<close>

definition rebind :: "bool \<Rightarrow> pin list \<Rightarrow> string option \<Rightarrow> string option" where
  "rebind isExecLike pins h =
     (if isExecLike then
        (case find_exec pins of
           Some execPin \<Rightarrow> Some (pin_id execPin)
         | None \<Rightarrow> (case first_pin pins of Some p \<Rightarrow> Some (pin_id p) | None \<Rightarrow> h))
      else
        (case first_pin pins of Some p \<Rightarrow> Some (pin_id p) | None \<Rightarrow> h))"

definition resolveSourceHandle :: "pin list \<Rightarrow> string option \<Rightarrow> string option" where
  "resolveSourceHandle outs h =
     (let sourceHandleStr = (if truthy h then toLowerCase (the h) else []);
          sourcePinExists = (truthy h \<and> list_ex (\<lambda>p. Some (pin_id p) = h) outs)
      in if sourcePinExists then h
         else rebind (falsy h \<or> includes_str sourceHandleStr ''exec'' \<or>
                      includes_str sourceHandleStr ''then'' \<or>
                      includes_str sourceHandleStr ''true'' \<or>
                      includes_str sourceHandleStr ''out'') outs h)"

definition resolveTargetHandle :: "pin list \<Rightarrow> string option \<Rightarrow> string option" where
  "resolveTargetHandle ins h =
     (let targetHandleStr = (if truthy h then toLowerCase (the h) else []);
          targetPinExists = (truthy h \<and> list_ex (\<lambda>p. Some (pin_id p) = h) ins)
      in if targetPinExists then h
         else rebind (falsy h \<or> includes_str targetHandleStr ''exec'') ins h)"

text \<open>The decimal digits of an array index, as a template literal prints it.\<close>

fun show_nat :: "nat \<Rightarrow> string" where
  "show_nat n =
     (if n < 10 then [''0123456789'' ! n]
      else show_nat (n div 10) @ [''0123456789'' ! (n mod 10)])"

declare show_nat.simps [simp del]

text \<open>
  The body of the \<^verbatim>\<open>map\<close> over the raw edges: \<^verbatim>\<open>None\<close> is the \<^verbatim>\<open>null\<close> that the
  following \<^verbatim>\<open>filter\<close> removes.
\<close>

definition resolveEdge :: "bp_node list \<Rightarrow> raw_edge \<Rightarrow> nat \<Rightarrow> bp_edge option" where
  "resolveEdge nodes edge index =
     (case find (\<lambda>n. bp_id n = e_source edge) nodes of
        None \<Rightarrow> None
      | Some sourceNode \<Rightarrow>
          (case find (\<lambda>n. bp_id n = e_target edge) nodes of
             None \<Rightarrow> None
           | Some targetNode \<Rightarrow>
               (let finalSourceHandle = resolveSourceHandle (d_outputs (data sourceNode)) (e_sourceHandle edge);
                    finalTargetHandle = resolveTargetHandle (d_inputs (data targetNode)) (e_targetHandle edge);
                    edgeId = (if truthy (e_id edge) then the (e_id edge)
                              else ''e_'' @ e_source edge @ ''_'' @ e_target edge @ ''_'' @ show_nat index)
                in if falsy finalSourceHandle \<or> falsy finalTargetHandle then None
                   else Some \<lparr>be_id = edgeId, be_source = e_source edge, be_target = e_target edge,
                               be_sourceHandle = the finalSourceHandle,
                               be_targetHandle = the finalTargetHandle\<rparr>)))"

definition validEdges :: "bp_node list \<Rightarrow> raw_edge list \<Rightarrow> bp_edge list" where
  "validEdges nodes edges =
     List.map_filter (\<lambda>(index, edge). resolveEdge nodes edge index) (enumerate 0 edges)"

text \<open>Example graphs for the resolver.\<close>

definition get_health :: raw_node where
  "get_health =
     \<lparr>node_id = ''G2'', label = Some ''Get Health'', nodeType = Some ''function'',
      inputs = Some [], outputs = Some []\<rparr>"

definition edge_bogus_source_handle :: raw_edge where
  "edge_bogus_source_handle =
     \<lparr>e_id = None, e_source = ''G2'', e_target = ''P1'',
      e_sourceHandle = Some ''G2_Value'', e_targetHandle = None\<rparr>"

definition edge_event_to_print :: raw_edge where
  "edge_event_to_print =
     \<lparr>e_id = None, e_source = ''Event1'', e_target = ''P1'',
      e_sourceHandle = Some ''Event1_Output'', e_targetHandle = Some ''P1_Exec''\<rparr>"

definition edge_with_id :: raw_edge where
  "edge_with_id =
     \<lparr>e_id = Some ''wire7'', e_source = ''Event1'', e_target = ''P1'',
      e_sourceHandle = None, e_targetHandle = None\<rparr>"

definition edge_bogus_target_handle :: raw_edge where
  "edge_bogus_target_handle =
     \<lparr>e_id = None, e_source = ''P1'', e_target = ''Event1'',
      e_sourceHandle = None, e_targetHandle = Some ''Event1_In''\<rparr>"


section \<open>Layout engine: \<^verbatim>\<open>getLayoutedElements\<close>\<close>

subsection \<open>Adjacency\<close>

text \<open>
  \<^verbatim>\<open>adjacency\<close> and \<^verbatim>\<open>inverseAdjacency\<close> are objects keyed by node id. Every
  node gets the empty list; an edge is then pushed onto the list of its source (in
  \<^verbatim>\<open>adjacency\<close>) if that key exists, and onto the list of its target (in
  \<^verbatim>\<open>inverseAdjacency\<close>) if that key exists. The objects are read as maps of their own
  keys; an id that names a property of \<^verbatim>\<open>Object.prototype\<close> is outside the model.
\<close>

type_synonym adjacency = "string \<rightharpoonup> string list"

definition init_adjacency :: "bp_node list \<Rightarrow> adjacency" where
  "init_adjacency nodes = fold (\<lambda>n m. m(bp_id n \<mapsto> [])) nodes Map.empty"

definition push_to :: "string \<Rightarrow> string \<Rightarrow> adjacency \<Rightarrow> adjacency" where
  "push_to k v m = (case m k of None \<Rightarrow> m | Some vs \<Rightarrow> m(k \<mapsto> vs @ [v]))"

definition build_adjacency :: "bp_node list \<Rightarrow> bp_edge list \<Rightarrow> adjacency" where
  "build_adjacency nodes edges =
     fold (\<lambda>e m. push_to (be_source e) (be_target e) m) edges (init_adjacency nodes)"

definition build_inverseAdjacency :: "bp_node list \<Rightarrow> bp_edge list \<Rightarrow> adjacency" where
  "build_inverseAdjacency nodes edges =
     fold (\<lambda>e m. push_to (be_target e) (be_source e) m) edges (init_adjacency nodes)"

text \<open>\<^verbatim>\<open>m[k] || []\<close>.\<close>

definition entries :: "('k \<rightharpoonup> 'v list) \<Rightarrow> 'k \<Rightarrow> 'v list" where
  "entries m k = (case m k of None \<Rightarrow> [] | Some vs \<Rightarrow> vs)"

subsection \<open>Rank assignment\<close>

text \<open>
  The queue is seeded with the nodes without incoming edge, at rank 0, or with the first
  node when there is none.
\<close>

definition initial_queue :: "bp_node list \<Rightarrow> adjacency \<Rightarrow> (string \<times> nat) list" where
  "initial_queue nodes inverseAdjacency =
     (let sources = filter (\<lambda>n. length (entries inverseAdjacency (bp_id n)) = 0) nodes;
          queue = map (\<lambda>n. (bp_id n, 0)) sources
      in case nodes of
           [] \<Rightarrow> queue
         | first # _ \<Rightarrow> if length queue = 0 then queue @ [(bp_id first, 0)] else queue)"

text \<open>
  The \<^verbatim>\<open>while (queue.length > 0)\<close> loop. Nothing in the source bounds the number of its
  iterations, so it is a partial function: \<open>None\<close> is the loop that never ends.
  One iteration shifts the head \<^verbatim>\<open>{id, rank}\<close> off the queue, raises
  \<^verbatim>\<open>ranks[id]\<close> to \<^verbatim>\<open>rank\<close> if that is larger (or if it was undefined), and pushes
  \<^verbatim>\<open>{target, rank + 1}\<close> for every neighbour whose rank is undefined or smaller than
  \<^verbatim>\<open>rank + 1\<close>. Ranks are natural numbers here; the doubles of the source count
  exactly up to \<open>2^53\<close>, which no run that finishes ever reaches.
\<close>

definition raise_rank :: "(string \<rightharpoonup> nat) \<Rightarrow> string \<Rightarrow> nat \<Rightarrow> (string \<rightharpoonup> nat)" where
  "raise_rank ranks i rank =
     (case ranks i of
        None \<Rightarrow> ranks(i \<mapsto> rank)
      | Some r \<Rightarrow> if rank > r then ranks(i \<mapsto> rank) else ranks)"

definition to_push :: "(string \<rightharpoonup> nat) \<Rightarrow> nat \<Rightarrow> string list \<Rightarrow> (string \<times> nat) list" where
  "to_push ranks rank neighbors =
     map (\<lambda>target. (target, rank + 1))
       (filter (\<lambda>target. case ranks target of None \<Rightarrow> True | Some r \<Rightarrow> r < rank + 1) neighbors)"

partial_function (option) rank_loop ::
  "adjacency \<Rightarrow> (string \<times> nat) list \<Rightarrow> (string \<rightharpoonup> nat) \<Rightarrow> (string \<rightharpoonup> nat) option" where
  "rank_loop adjacency queue ranks =
     (case queue of
        [] \<Rightarrow> Some ranks
      | (i, rank) # rest \<Rightarrow>
          rank_loop adjacency
            (rest @ to_push (raise_rank ranks i rank) rank (entries adjacency i))
            (raise_rank ranks i rank))"

definition final_ranks :: "bp_node list \<Rightarrow> bp_edge list \<Rightarrow> (string \<rightharpoonup> nat) option" where
  "final_ranks nodes edges =
     rank_loop (build_adjacency nodes edges)
       (initial_queue nodes (build_inverseAdjacency nodes edges)) Map.empty"

text \<open>\<^verbatim>\<open>ranks[id] !== undefined ? ranks[id] : 0\<close>.\<close>

definition rank_of :: "(string \<rightharpoonup> nat) \<Rightarrow> string \<Rightarrow> nat" where
  "rank_of ranks i = (case ranks i of None \<Rightarrow> 0 | Some r \<Rightarrow> r)"

subsection \<open>Columns\<close>

definition build_rankMap :: "bp_node list \<Rightarrow> (string \<rightharpoonup> nat) \<Rightarrow> (nat \<rightharpoonup> string list)" where
  "build_rankMap nodes ranks =
     fold (\<lambda>node m. m(rank_of ranks (bp_id node) \<mapsto>
                        entries m (rank_of ranks (bp_id node)) @ [bp_id node]))
       nodes Map.empty"

definition maxRank :: "bp_node list \<Rightarrow> (string \<rightharpoonup> nat) \<Rightarrow> nat" where
  "maxRank nodes ranks = fold (\<lambda>node m. max m (rank_of ranks (bp_id node))) nodes 0"

definition build_nodeMap :: "bp_node list \<Rightarrow> (string \<rightharpoonup> bp_node)" where
  "build_nodeMap nodes = fold (\<lambda>n m. m(bp_id n \<mapsto> n)) nodes Map.empty"

subsection \<open>Ordering and placing a column\<close>

record weighted =
  w_id :: string
  avgY :: rat
  isEvent :: bool

definition MAX_SAFE_INTEGER :: rat where
  "MAX_SAFE_INTEGER = 9007199254740991"

text \<open>The average y of the parents that already have a position, or the sentinel.\<close>

definition barycenter :: "(string \<rightharpoonup> point) \<Rightarrow> string list \<Rightarrow> rat" where
  "barycenter positions parents =
     (let (weight, parentCount) =
            fold (\<lambda>pid (w, c). case positions pid of
                                  None \<Rightarrow> (w, c)
                                | Some p \<Rightarrow> (w + pos_y p, c + 1))
              parents (0, 0 :: nat)
      in if parentCount > 0 then weight / of_nat parentCount else MAX_SAFE_INTEGER)"

definition weigh ::
  "(string \<rightharpoonup> bp_node) \<Rightarrow> adjacency \<Rightarrow> (string \<rightharpoonup> point) \<Rightarrow> string \<Rightarrow> weighted" where
  "weigh nodeMap inverseAdjacency positions i =
     \<lparr>w_id = i,
      avgY = barycenter positions (entries inverseAdjacency i),
      isEvent = (case nodeMap i of
                   None \<Rightarrow> False
                 | Some n \<Rightarrow> d_nodeType (data n) = Some ''event'')\<rparr>"

text \<open>The comparator handed to \<^verbatim>\<open>sort\<close>: events first, then by barycenter.\<close>

definition compare_weighted :: "weighted \<Rightarrow> weighted \<Rightarrow> rat" where
  "compare_weighted a b =
     (if isEvent a \<and> \<not> isEvent b then - 1
      else if \<not> isEvent a \<and> isEvent b then 1
      else avgY a - avgY b)"

text \<open>
  \<^verbatim>\<open>Array.prototype.sort\<close> is stable, and the comparator is a total preorder (the
  lexicographic order on event-ness and barycenter), so the result is the stable sort, here
  by insertion from the right.
\<close>

fun insert_weighted :: "weighted \<Rightarrow> weighted list \<Rightarrow> weighted list" where
  "insert_weighted a [] = [a]"
| "insert_weighted a (b # bs) =
     (if compare_weighted a b \<le> 0 then a # b # bs else b # insert_weighted a bs)"

definition sort_weighted :: "weighted list \<Rightarrow> weighted list" where
  "sort_weighted ws = foldr insert_weighted ws []"

text \<open>
  The walk down a column with the running cursor \<^verbatim>\<open>currentY\<close>: the ideal y is the
  barycenter (the cursor for the sentinel), clamped to the cursor; the cursor moves to that
  y plus \<^verbatim>\<open>nodeHeight + gap\<close>, that is 150 + 50.
\<close>

definition idealY :: "rat \<Rightarrow> weighted \<Rightarrow> rat" where
  "idealY currentY item =
     (let y = (if avgY item \<noteq> MAX_SAFE_INTEGER then avgY item else currentY)
      in if y < currentY then currentY else y)"

fun place :: "rat \<Rightarrow> rat \<Rightarrow> weighted list \<Rightarrow> (string \<rightharpoonup> point) \<Rightarrow> (string \<rightharpoonup> point)" where
  "place x currentY [] positions = positions"
| "place x currentY (item # items) positions =
     place x (idealY currentY item + 150 + 50) items
       (positions(w_id item \<mapsto> \<lparr>pos_x = x, pos_y = idealY currentY item\<rparr>))"

text \<open>One round of the loop over the ranks; \<^verbatim>\<open>RANK_SPACING\<close> is 450.\<close>

definition layout_rank ::
  "(string \<rightharpoonup> bp_node) \<Rightarrow> adjacency \<Rightarrow> (nat \<rightharpoonup> string list) \<Rightarrow> nat \<Rightarrow>
   (string \<rightharpoonup> point) \<Rightarrow> (string \<rightharpoonup> point)" where
  "layout_rank nodeMap inverseAdjacency rankMap r positions =
     (let nodeIds = entries rankMap r;
          nodesWithWeight = sort_weighted (map (weigh nodeMap inverseAdjacency positions) nodeIds)
      in place (of_nat r * 450) 0 nodesWithWeight positions)"

definition assign_positions :: "bp_node list \<Rightarrow> bp_edge list \<Rightarrow> (string \<rightharpoonup> nat) \<Rightarrow> (string \<rightharpoonup> point)" where
  "assign_positions nodes edges ranks =
     fold (layout_rank (build_nodeMap nodes) (build_inverseAdjacency nodes edges)
             (build_rankMap nodes ranks))
       [0..<Suc (maxRank nodes ranks)] Map.empty"

subsection \<open>The layout function\<close>

text \<open>
  The result is \<open>None\<close> when the rank loop does not end. The constant fields
  \<^verbatim>\<open>targetPosition\<close> and \<^verbatim>\<open>sourcePosition\<close> of the returned nodes are left out.
\<close>

definition getLayoutedElements ::
  "bp_node list \<Rightarrow> bp_edge list \<Rightarrow> (bp_node list \<times> bp_edge list) option" where
  "getLayoutedElements nodes edges =
     (case final_ranks nodes edges of
        None \<Rightarrow> None
      | Some ranks \<Rightarrow>
          (let positions = assign_positions nodes edges ranks
           in Some (map (\<lambda>node. node\<lparr>position :=
                           (case positions (bp_id node) of
                              None \<Rightarrow> \<lparr>pos_x = 0, pos_y = 0\<rparr>
                            | Some pos \<Rightarrow> pos)\<rparr>) nodes,
                    edges)))"

text \<open>The relation of the edges, for acyclicity.\<close>

definition edge_rel :: "bp_edge list \<Rightarrow> (string \<times> string) set" where
  "edge_rel edges = set (map (\<lambda>e. (be_source e, be_target e)) edges)"

text \<open>Example graphs for the layout.\<close>

definition plain_node :: "string \<Rightarrow> string \<Rightarrow> bp_node" where
  "plain_node i ty =
     \<lparr>bp_id = i, position = \<lparr>pos_x = 0, pos_y = 0\<rparr>,
      data = \<lparr>d_label = Some i, d_nodeType = Some ty, d_inputs = [], d_outputs = []\<rparr>\<rparr>"

definition wire :: "string \<Rightarrow> string \<Rightarrow> bp_edge" where
  "wire s t =
     \<lparr>be_id = ''e_'' @ s @ ''_'' @ t, be_source = s, be_target = t,
      be_sourceHandle = s @ ''_Output'', be_targetHandle = t @ ''_Exec''\<rparr>"

definition two_cycle_nodes :: "bp_node list" where
  "two_cycle_nodes = [plain_node ''A'' ''function'', plain_node ''B'' ''function'']"

definition two_cycle_edges :: "bp_edge list" where
  "two_cycle_edges = [wire ''A'' ''B'', wire ''B'' ''A'']"

text \<open>
  The states the rank loop runs through on the two-node cycle: one queue entry
  \<open>(v, r)\<close>, the rank of \<open>v\<close> at most \<open>r + 1\<close> and the rank of the other node \<open>w\<close> at
  most \<open>r\<close>, so that \<open>w\<close> is pushed again at \<open>r + 1\<close>.
\<close>

definition rank_at_most :: "(string \<rightharpoonup> nat) \<Rightarrow> string \<Rightarrow> nat \<Rightarrow> bool" where
  "rank_at_most ranks v n = (case ranks v of None \<Rightarrow> True | Some k \<Rightarrow> k \<le> n)"

definition two_cycle_state :: "(string \<times> nat) list \<Rightarrow> (string \<rightharpoonup> nat) \<Rightarrow> bool" where
  "two_cycle_state queue ranks =
     (\<exists>v w r. queue = [(v, r)] \<and> ((v = ''A'' \<and> w = ''B'') \<or> (v = ''B'' \<and> w = ''A'')) \<and>
        rank_at_most ranks v (r + 1) \<and> rank_at_most ranks w r)"


text \<open>The neighbour relation of an adjacency map, target first.\<close>

definition neighbour_rel :: "adjacency \<Rightarrow> (string \<times> string) set" where
  "neighbour_rel adj = {(t, s). t \<in> set (entries adj s)}"










section \<open>Properties of the normalizer\<close>

lemma some_type_unshift [simp]: "some_type t (unshift_unless_type t p ps) = (some_type t ps \<or> pin_type p = t)"
  by (auto simp: unshift_unless_type_def some_type_def)

lemma some_type_push [simp]: "some_type t (push_unless_type t p ps) = (some_type t ps \<or> pin_type p = t)"
  by (auto simp: push_unless_type_def some_type_def)

lemma some_name_push [simp]: "some_name n (push_unless_name n p ps) = (some_name n ps \<or> pin_name p = n)"
  by (auto simp: push_unless_name_def some_name_def)

lemma some_type_append [simp]: "some_type t (ps @ qs) = (some_type t ps \<or> some_type t qs)"
  by (simp add: some_type_def)

lemma some_name_append [simp]: "some_name t (ps @ qs) = (some_name t ps \<or> some_name t qs)"
  by (simp add: some_name_def)

lemma some_type_Cons [simp]: "some_type t (p # ps) = (pin_type p = t \<or> some_type t ps)"
  by (simp add: some_type_def)

lemma some_name_Cons [simp]: "some_name t (p # ps) = (pin_name p = t \<or> some_name t ps)"
  by (simp add: some_name_def)

lemma some_type_Nil [simp]: "some_type t [] = False"
  by (simp add: some_type_def)

lemma some_name_Nil [simp]: "some_name t [] = False"
  by (simp add: some_name_def)

lemma mk_pin_sel [simp]:
  "pin_type (mk_pin nid s nm ty) = ty" "pin_name (mk_pin nid s nm ty) = nm"
  "pin_id (mk_pin nid s nm ty) = nid @ ''_'' @ s"
  by (simp_all add: mk_pin_def)

lemma ensureDefaultPins_label [simp]: "label (ensureDefaultPins n) = label n"
  by (simp add: ensureDefaultPins_def Let_def split: prod.splits)

lemma ensureDefaultPins_nodeType [simp]: "nodeType (ensureDefaultPins n) = nodeType n"
  by (simp add: ensureDefaultPins_def Let_def split: prod.splits)

lemma ensureDefaultPins_node_id [simp]: "node_id (ensureDefaultPins n) = node_id n"
  by (simp add: ensureDefaultPins_def Let_def split: prod.splits)

lemma ensureDefaultPins_label_of [simp]: "label_of (ensureDefaultPins n) = label_of n"
  by (simp add: label_of_def)

lemma ensureDefaultPins_classify [simp]: "classify (ensureDefaultPins n) = classify n"
  by (simp add: classify_def)

text \<open>The normalizer only rewrites the two pin lists, and always leaves them present.\<close>

lemma ensureDefaultPins_shape:
  "ensureDefaultPins n =
     n\<lparr>inputs := Some (ins_of (ensureDefaultPins n)), outputs := Some (outs_of (ensureDefaultPins n))\<rparr>"
  by (simp add: ensureDefaultPins_def Let_def ins_of_def outs_of_def split: prod.splits)

text \<open>The pin lists of the normalized node, rule by rule.\<close>

lemma ins_of_ensureDefaultPins:
  "ins_of (ensureDefaultPins n) =
     (case classify n of
        Branch \<Rightarrow> push_unless_type ''boolean'' (mk_pin (node_id n) ''Condition'' ''Condition'' ''boolean'')
                    (unshift_unless_type ''exec'' (mk_pin (node_id n) ''Exec'' ''Exec'' ''exec'') (ins_of n))
      | Event \<Rightarrow> ins_of n
      | Sequence \<Rightarrow> unshift_unless_type ''exec'' (mk_pin (node_id n) ''Exec'' ''Exec'' ''exec'') (ins_of n)
      | VariableSet \<Rightarrow> unshift_unless_type ''exec'' (mk_pin (node_id n) ''Exec'' ''Exec'' ''exec'') (ins_of n)
      | VariableGet \<Rightarrow> (if ins_of n \<noteq> [] \<and> outs_of n = [] then [] else ins_of n)
      | ForLoop \<Rightarrow> unshift_unless_type ''exec'' (mk_pin (node_id n) ''Exec'' ''Exec'' ''exec'') (ins_of n)
      | GenericImpure \<Rightarrow> unshift_unless_type ''exec'' (mk_pin (node_id n) ''Exec'' ''Exec'' ''exec'') (ins_of n)
      | GenericPure \<Rightarrow> ins_of n)"
  unfolding ensureDefaultPins_def classify_def Let_def
  by (simp add: ins_of_def split: prod.splits)

lemma outs_of_ensureDefaultPins:
  "outs_of (ensureDefaultPins n) =
     (case classify n of
        Branch \<Rightarrow> push_unless_name ''False'' (mk_pin (node_id n) ''False'' ''False'' ''exec'')
                    (push_unless_name ''True'' (mk_pin (node_id n) ''True'' ''True'' ''exec'') (outs_of n))
      | Event \<Rightarrow> unshift_unless_type ''exec'' (mk_pin (node_id n) ''Output'' ''Output'' ''exec'') (outs_of n)
      | Sequence \<Rightarrow> (if length (outs_of n) < 2
                      then outs_of n @ [mk_pin (node_id n) ''Then0'' ''Then 0'' ''exec'',
                                        mk_pin (node_id n) ''Then1'' ''Then 1'' ''exec'']
                      else outs_of n)
      | VariableSet \<Rightarrow> unshift_unless_type ''exec'' (mk_pin (node_id n) ''Output'' ''Output'' ''exec'') (outs_of n)
      | VariableGet \<Rightarrow> (if outs_of n \<noteq> [] then outs_of n
                         else if ins_of n \<noteq> [] then ins_of n
                         else [mk_pin (node_id n) ''Value'' ''Value'' ''boolean''])
      | ForLoop \<Rightarrow> push_unless_name ''Completed'' (mk_pin (node_id n) ''Completed'' ''Completed'' ''exec'')
                    (push_unless_name ''Loop Body'' (mk_pin (node_id n) ''LoopBody'' ''Loop Body'' ''exec'') (outs_of n))
      | GenericImpure \<Rightarrow> unshift_unless_type ''exec'' (mk_pin (node_id n) ''Output'' ''Output'' ''exec'') (outs_of n)
      | GenericPure \<Rightarrow> outs_of n)"
  unfolding ensureDefaultPins_def classify_def Let_def
  by (simp add: outs_of_def split: prod.splits)

lemmas pin_edit_defs = unshift_unless_type_def push_unless_type_def push_unless_name_def

lemma ins_of_idem: "ins_of (ensureDefaultPins (ensureDefaultPins n)) = ins_of (ensureDefaultPins n)"
  by (cases "classify n")
    (simp_all add: ins_of_ensureDefaultPins [of "ensureDefaultPins n"] ins_of_ensureDefaultPins [of n]
      outs_of_ensureDefaultPins [of n] pin_edit_defs)

lemma outs_of_idem: "outs_of (ensureDefaultPins (ensureDefaultPins n)) = outs_of (ensureDefaultPins n)"
  by (cases "classify n")
    (simp_all add: outs_of_ensureDefaultPins [of "ensureDefaultPins n"] ins_of_ensureDefaultPins [of n]
      outs_of_ensureDefaultPins [of n] pin_edit_defs)

lemmas example_node_defs = sequence_two_data_outputs_def branch_empty_def branch_two_exec_inputs_def
  event_labelled_branch_def event_begin_play_def getter_with_inputs_def print_string_def data_pin_def

lemmas normalizer_eval = ensureDefaultPins_def Let_def label_of_def ins_of_def outs_of_def
  is_event_like_def isLikelyPure_def startsWith_def includes_str_def pin_edit_defs mk_pin_def
  some_type_def some_name_def count_type_def sublist_code

subsection \<open>Sequence nodes\<close>

text \<open>
  C2. A node labelled exactly \<^verbatim>\<open>Sequence\<close> should end up with an Exec input and with the
  Exec outputs \<^verbatim>\<open>Then 0\<close> and \<^verbatim>\<open>Then 1\<close>, whatever pins the raw node carries. The
  source tests \<^verbatim>\<open>node.outputs.length < 2\<close>, the number of outputs of any type, where
  the Branch and For Loop rules test each required output by name. On a Sequence node that
  already has two data outputs the rule fires, nothing is appended, and the normalized node
  has no Exec output at all.
\<close>

theorem sequence_two_data_outputs_no_exec:
  "classify sequence_two_data_outputs = Sequence \<and>
   outs_of (ensureDefaultPins sequence_two_data_outputs) = outs_of sequence_two_data_outputs \<and>
   count_type ''exec'' (outs_of (ensureDefaultPins sequence_two_data_outputs)) = 0"
  by (simp add: classify_def example_node_defs normalizer_eval)

subsection \<open>Idempotence\<close>

text \<open>
  C3. The normalizer is idempotent: normalizing an already normalized node changes nothing,
  for every raw node (any label, any node type, pin lists absent or present).
\<close>

theorem ensureDefaultPins_idempotent:
  "ensureDefaultPins (ensureDefaultPins n) = ensureDefaultPins n"
proof -
  have "ensureDefaultPins (ensureDefaultPins n) =
        (ensureDefaultPins n)\<lparr>inputs := Some (ins_of (ensureDefaultPins n)),
                               outputs := Some (outs_of (ensureDefaultPins n))\<rparr>"
    using ensureDefaultPins_shape [of "ensureDefaultPins n"] by (simp only: ins_of_idem outs_of_idem)
  also have "\<dots> = ensureDefaultPins n"
    by (subst (3) ensureDefaultPins_shape) simp
  finally show ?thesis .
qed

theorem ensureDefaultPins_idempotent_witness:
  "ensureDefaultPins (ensureDefaultPins print_string) = ensureDefaultPins print_string \<and>
   ins_of (ensureDefaultPins print_string) =
     [mk_pin ''P1'' ''Exec'' ''Exec'' ''exec'', data_pin ''P1_Text'' ''In String'' ''string''] \<and>
   outs_of (ensureDefaultPins print_string) = [mk_pin ''P1'' ''Output'' ''Output'' ''exec'']"
  using ensureDefaultPins_idempotent [of print_string]
  by (simp add: example_node_defs normalizer_eval)

lemma count_type_simps [simp]:
  "count_type t [] = 0"
  "count_type t (p # ps) = (if pin_type p = t then Suc (count_type t ps) else count_type t ps)"
  "count_type t (ps @ qs) = count_type t ps + count_type t qs"
  by (simp_all add: count_type_def)


subsection \<open>Branch nodes\<close>




subsection \<open>Precedence of the rules\<close>




subsection \<open>Pins are only added\<close>

text \<open>
  C10. Normalization adds pins and deletes none, the VariableGet transfer apart. For every
  raw node to which the VariableGet rule is not applied, the normalized inputs are the raw
  inputs with pins put in front or behind, and so are the outputs: every raw pin is kept, in
  its order. For a node under the VariableGet rule that has inputs and no outputs, the former
  inputs are the outputs, unchanged, and the inputs are empty; any other node under that rule
  keeps its inputs and its outputs, a placeholder appended when it has neither.
\<close>

theorem normalization_keeps_pins:
  "(classify n \<noteq> VariableGet \<longrightarrow>
      (\<exists>pre post. ins_of (ensureDefaultPins n) = pre @ ins_of n @ post) \<and>
      (\<exists>pre post. outs_of (ensureDefaultPins n) = pre @ outs_of n @ post)) \<and>
   (classify n = VariableGet \<and> ins_of n \<noteq> [] \<and> outs_of n = [] \<longrightarrow>
      outs_of (ensureDefaultPins n) = ins_of n \<and> ins_of (ensureDefaultPins n) = []) \<and>
   (classify n = VariableGet \<and> \<not> (ins_of n \<noteq> [] \<and> outs_of n = []) \<longrightarrow>
      ins_of (ensureDefaultPins n) = ins_of n \<and>
      (\<exists>post. outs_of (ensureDefaultPins n) = outs_of n @ post))"
proof -
  have u: "\<exists>pre post. unshift_unless_type t p ps = pre @ ps @ post" for t p ps
  proof (cases "some_type t ps")
    case True
    then have "unshift_unless_type t p ps = [] @ ps @ []" by (simp add: unshift_unless_type_def)
    then show ?thesis by blast
  next
    case False
    then have "unshift_unless_type t p ps = [p] @ ps @ []" by (simp add: unshift_unless_type_def)
    then show ?thesis by blast
  qed
  have pt: "\<exists>post. push_unless_type t p ps = ps @ post" for t p ps
    by (simp add: push_unless_type_def)
  have pn: "\<exists>post. push_unless_name t p ps = ps @ post" for t p ps
    by (simp add: push_unless_name_def)
  have pn2: "\<exists>pre post. push_unless_name t p (push_unless_name t' p' ps) = pre @ ps @ post" for t p t' p' ps
  proof -
    obtain a where a: "push_unless_name t' p' ps = ps @ a" using pn by blast
    obtain b where b: "push_unless_name t p (ps @ a) = (ps @ a) @ b" using pn by blast
    have "push_unless_name t p (push_unless_name t' p' ps) = [] @ ps @ (a @ b)" using a b by simp
    then show ?thesis by blast
  qed
  have ptu: "\<exists>pre post. push_unless_type t p (unshift_unless_type t' p' ps) = pre @ ps @ post" for t p t' p' ps
  proof -
    obtain a c where a: "unshift_unless_type t' p' ps = a @ ps @ c" using u by blast
    obtain b where b: "push_unless_type t p (a @ ps @ c) = (a @ ps @ c) @ b" using pt by blast
    have "push_unless_type t p (unshift_unless_type t' p' ps) = a @ ps @ (c @ b)" using a b by simp
    then show ?thesis by blast
  qed
  have triv: "\<exists>pre post. ps = pre @ ps @ post" for ps :: "pin list"
    by (rule exI [of _ "[]"], rule exI [of _ "[]"]) simp
  have app: "\<exists>pre post. ps @ qs = pre @ ps @ post" for ps qs :: "pin list"
    by (rule exI [of _ "[]"], rule exI [of _ "qs"]) simp
  have ins: "classify n \<noteq> VariableGet \<Longrightarrow> \<exists>pre post. ins_of (ensureDefaultPins n) = pre @ ins_of n @ post"
    by (cases "classify n") (simp_all add: ins_of_ensureDefaultPins u ptu triv)
  have outs: "classify n \<noteq> VariableGet \<Longrightarrow> \<exists>pre post. outs_of (ensureDefaultPins n) = pre @ outs_of n @ post"
    by (cases "classify n") (simp_all add: outs_of_ensureDefaultPins u pn2 triv app)
  show ?thesis
    using ins outs by (auto simp: ins_of_ensureDefaultPins outs_of_ensureDefaultPins)
qed

theorem normalization_keeps_pins_witness:
  "classify getter_with_inputs = VariableGet \<and> ins_of getter_with_inputs \<noteq> [] \<and>
   outs_of getter_with_inputs = [] \<and>
   outs_of (ensureDefaultPins getter_with_inputs) = [data_pin ''G1_Health'' ''Health'' ''float''] \<and>
   ins_of (ensureDefaultPins getter_with_inputs) = [] \<and>
   classify branch_two_exec_inputs \<noteq> VariableGet \<and>
   (\<exists>pre post. ins_of (ensureDefaultPins branch_two_exec_inputs) = pre @ ins_of branch_two_exec_inputs @ post) \<and>
   (\<exists>pre post. outs_of (ensureDefaultPins branch_two_exec_inputs) = pre @ outs_of branch_two_exec_inputs @ post)"
proof -
  have g: "classify getter_with_inputs = VariableGet" "ins_of getter_with_inputs \<noteq> []"
    "outs_of getter_with_inputs = []"
    "ins_of getter_with_inputs = [data_pin ''G1_Health'' ''Health'' ''float'']"
    by (simp_all add: classify_def getter_with_inputs_def normalizer_eval)
  have b: "classify branch_two_exec_inputs \<noteq> VariableGet"
    by (simp add: classify_def branch_two_exec_inputs_def normalizer_eval)
  show ?thesis
    using normalization_keeps_pins [of getter_with_inputs] normalization_keeps_pins [of branch_two_exec_inputs] g b
    by simp
qed


section \<open>Properties of the edge resolver\<close>

lemmas resolver_eval = transformedNodes_def transformNode_def resolveEdge_def validEdges_def
  resolveSourceHandle_def resolveTargetHandle_def rebind_def find_exec_def first_pin_def
  truthy_def falsy_def toLowerCase_def lower_char_def List.map_filter_def enumerate_eq_zip
  get_health_def edge_bogus_source_handle_def edge_event_to_print_def edge_with_id_def
  edge_bogus_target_handle_def

lemma show_nat_0: "show_nat 0 = ''0''"
  by (simp add: show_nat.simps)

text \<open>With no pin to rebind to, a handle comes back as it was declared.\<close>

lemma resolveSourceHandle_no_pins: "resolveSourceHandle [] h = h"
  by (simp add: resolveSourceHandle_def rebind_def find_exec_def first_pin_def Let_def)

lemma resolveTargetHandle_no_pins: "resolveTargetHandle [] h = h"
  by (simp add: resolveTargetHandle_def rebind_def find_exec_def first_pin_def Let_def)

subsection \<open>Edges at a node without pins\<close>

text \<open>
  C5. An edge whose source node has no output pin at all should be dropped, whether or not
  it declared a source handle (and symmetrically for a target node without input pins). The
  source drops an edge only when a final handle is falsy, and a declared handle that names
  no pin stays as declared when there is no pin to rebind it to. The pure node
  \<^verbatim>\<open>Get Health\<close> keeps its empty outputs through normalization, and the edge from it
  that declares the handle \<^verbatim>\<open>G2_Value\<close> survives, bound to that missing pin; so
  does the edge into the event node, which has no input, with its declared target handle.
\<close>

theorem bogus_source_handle_kept:
  "d_outputs (data (transformNode get_health)) = [] \<and>
   validEdges (transformedNodes [get_health, print_string]) [edge_bogus_source_handle] =
     [\<lparr>be_id = ''e_G2_P1_0'', be_source = ''G2'', be_target = ''P1'',
       be_sourceHandle = ''G2_Value'', be_targetHandle = ''P1_Exec''\<rparr>] \<and>
   d_inputs (data (transformNode event_begin_play)) = [] \<and>
   validEdges (transformedNodes [event_begin_play, print_string]) [edge_bogus_target_handle] =
     [\<lparr>be_id = ''e_P1_Event1_0'', be_source = ''P1'', be_target = ''Event1'',
       be_sourceHandle = ''P1_Output'', be_targetHandle = ''Event1_In''\<rparr>]"
  by (simp add: resolver_eval example_node_defs normalizer_eval show_nat_0)

subsection \<open>Edge ids\<close>

text \<open>
  The generated id starts with \<^verbatim>\<open>e_\<close>: the first edge from \<^verbatim>\<open>Event1\<close> to
  \<^verbatim>\<open>P1\<close> gets \<^verbatim>\<open>e_Event1_P1_0\<close>, not \<^verbatim>\<open>Event1_P1_0\<close>.
\<close>

theorem edge_id_prefix_counterexample:
  "map be_id (validEdges (transformedNodes [event_begin_play, print_string]) [edge_event_to_print]) =
     [''e_Event1_P1_0''] \<and>
   ''e_Event1_P1_0'' \<noteq>
     e_source edge_event_to_print @ ''_'' @ e_target edge_event_to_print @ ''_'' @ show_nat 0"
  by (simp add: resolver_eval example_node_defs normalizer_eval show_nat_0)

lemma resolveEdge_id:
  "resolveEdge nodes edge index = Some e \<Longrightarrow>
     be_id e = (if truthy (e_id edge) then the (e_id edge)
                else ''e_'' @ e_source edge @ ''_'' @ e_target edge @ ''_'' @ show_nat index)"
  by (auto simp: resolveEdge_def Let_def split: option.splits if_splits)

lemma set_map_filter: "set (List.map_filter f xs) = {y. \<exists>x \<in> set xs. f x = Some y}"
  by (induction xs) (auto simp: map_filter_simps split: option.splits)

lemma validEdges_mem:
  "e \<in> set (validEdges nodes edges) \<longleftrightarrow>
     (\<exists>index<length edges. resolveEdge nodes (edges ! index) index = Some e)"
proof
  assume "e \<in> set (validEdges nodes edges)"
  then obtain index edge where "(index, edge) \<in> set (enumerate 0 edges)"
    and r: "resolveEdge nodes edge index = Some e"
    by (auto simp: validEdges_def set_map_filter)
  then have "index < length edges" "edge = edges ! index"
    by (auto simp: in_set_enumerate_eq)
  with r show "\<exists>index<length edges. resolveEdge nodes (edges ! index) index = Some e"
    by blast
next
  assume "\<exists>index<length edges. resolveEdge nodes (edges ! index) index = Some e"
  then obtain index where i: "index < length edges"
    and r: "resolveEdge nodes (edges ! index) index = Some e"
    by blast
  from i have "(index, edges ! index) \<in> set (enumerate 0 edges)"
    by (simp add: in_set_enumerate_eq)
  with r show "e \<in> set (validEdges nodes edges)"
    by (force simp: validEdges_def set_map_filter)
qed

text \<open>
  C7 (amended). Every edge of the resolver's output comes from a raw edge at some position
  \<open>index\<close> of the raw sequence; if that raw edge declared a non-empty id the resolved edge
  keeps it, otherwise its id is \<^verbatim>\<open>e_{source}_{target}_{index}\<close>, the index in decimal.
\<close>

theorem resolved_edge_id:
  "e \<in> set (validEdges nodes edges) \<Longrightarrow>
     \<exists>index<length edges.
        resolveEdge nodes (edges ! index) index = Some e \<and>
        be_id e = (if truthy (e_id (edges ! index)) then the (e_id (edges ! index))
                   else ''e_'' @ e_source (edges ! index) @ ''_'' @ e_target (edges ! index) @ ''_'' @
                        show_nat index)"
  using resolveEdge_id by (fastforce simp: validEdges_mem)

theorem resolved_edge_id_witness:
  "\<lparr>be_id = ''wire7'', be_source = ''Event1'', be_target = ''P1'',
     be_sourceHandle = ''Event1_Output'', be_targetHandle = ''P1_Exec''\<rparr>
     \<in> set (validEdges (transformedNodes [event_begin_play, print_string])
              [edge_event_to_print, edge_with_id]) \<and>
   (\<exists>index<length [edge_event_to_print, edge_with_id].
      resolveEdge (transformedNodes [event_begin_play, print_string])
        ([edge_event_to_print, edge_with_id] ! index) index =
        Some \<lparr>be_id = ''wire7'', be_source = ''Event1'', be_target = ''P1'',
               be_sourceHandle = ''Event1_Output'', be_targetHandle = ''P1_Exec''\<rparr> \<and>
      ''wire7'' =
        (if truthy (e_id ([edge_event_to_print, edge_with_id] ! index))
         then the (e_id ([edge_event_to_print, edge_with_id] ! index))
         else ''e_'' @ e_source ([edge_event_to_print, edge_with_id] ! index) @ ''_'' @
              e_target ([edge_event_to_print, edge_with_id] ! index) @ ''_'' @ show_nat index))"
proof -
  have v: "validEdges (transformedNodes [event_begin_play, print_string])
             [edge_event_to_print, edge_with_id] =
           [\<lparr>be_id = ''e_Event1_P1_0'', be_source = ''Event1'', be_target = ''P1'',
              be_sourceHandle = ''Event1_Output'', be_targetHandle = ''P1_Exec''\<rparr>,
            \<lparr>be_id = ''wire7'', be_source = ''Event1'', be_target = ''P1'',
              be_sourceHandle = ''Event1_Output'', be_targetHandle = ''P1_Exec''\<rparr>]"
    by (simp add: resolver_eval example_node_defs normalizer_eval show_nat_0)
  have m: "\<lparr>be_id = ''wire7'', be_source = ''Event1'', be_target = ''P1'',
     be_sourceHandle = ''Event1_Output'', be_targetHandle = ''P1_Exec''\<rparr>
     \<in> set (validEdges (transformedNodes [event_begin_play, print_string])
              [edge_event_to_print, edge_with_id])"
    by (simp only: v) simp
  show ?thesis
    using resolved_edge_id [OF m] m by simp
qed


section \<open>Properties of the layout engine\<close>

lemmas layout_eval = final_ranks_def build_adjacency_def build_inverseAdjacency_def init_adjacency_def
  push_to_def initial_queue_def entries_def raise_rank_def to_push_def plain_node_def wire_def Let_def

subsection \<open>A cycle\<close>

lemma two_cycle_step:
  assumes adj: "entries adj ''A'' = [''B'']" "entries adj ''B'' = [''A'']"
    and st: "two_cycle_state ((v, r) # rest) ranks"
  shows "two_cycle_state (rest @ to_push (raise_rank ranks v r) r (entries adj v)) (raise_rank ranks v r)"
proof -
  from st obtain w where rest: "rest = []"
    and vw: "(v = ''A'' \<and> w = ''B'') \<or> (v = ''B'' \<and> w = ''A'')"
    and bv: "rank_at_most ranks v (r + 1)" and bw: "rank_at_most ranks w r"
    by (auto simp: two_cycle_state_def)
  from vw have ne: "w \<noteq> v" by auto
  from vw adj have e: "entries adj v = [w]" by auto
  have rw: "raise_rank ranks v r w = ranks w"
    using ne by (simp add: raise_rank_def split: option.splits)
  have push: "to_push (raise_rank ranks v r) r [w] = [(w, r + 1)]"
    using bw by (simp add: to_push_def rw rank_at_most_def split: option.splits)
  have b1: "rank_at_most (raise_rank ranks v r) w (r + 1 + 1)"
    using bw by (simp add: rw rank_at_most_def split: option.splits)
  have b2: "rank_at_most (raise_rank ranks v r) v (r + 1)"
    using bv by (simp add: raise_rank_def rank_at_most_def split: option.splits)
  have "two_cycle_state [(w, r + 1)] (raise_rank ranks v r)"
    unfolding two_cycle_state_def using vw b1 b2 by blast
  then show ?thesis by (simp add: rest e push)
qed

lemma two_cycle_never_returns:
  assumes r: "rank_loop adj queue ranks = Some y"
    and adj: "entries adj ''A'' = [''B'']" "entries adj ''B'' = [''A'']"
  shows "\<not> two_cycle_state queue ranks"
proof -
  let ?P = "\<lambda>a q rk (y :: string \<rightharpoonup> nat).
    entries a ''A'' = [''B''] \<and> entries a ''B'' = [''A''] \<longrightarrow> \<not> two_cycle_state q rk"
  have "?P adj queue ranks y"
  proof (rule rank_loop.raw_induct [where P = ?P, OF _ r])
    fix loop a q rk z
    assume IH: "\<And>a q rk z. loop a q rk = Some z \<Longrightarrow> ?P a q rk z"
      and body: "(case q of [] \<Rightarrow> Some rk
                  | (i, rank) # rest \<Rightarrow>
                      loop a (rest @ to_push (raise_rank rk i rank) rank (entries a i))
                        (raise_rank rk i rank)) = Some z"
    show "?P a q rk z"
    proof (intro impI notI)
      assume a: "entries a ''A'' = [''B''] \<and> entries a ''B'' = [''A'']"
        and st: "two_cycle_state q rk"
      from st obtain v r where q: "q = (v, r) # []"
        by (auto simp: two_cycle_state_def)
      from body q
      have run: "loop a ([] @ to_push (raise_rank rk v r) r (entries a v)) (raise_rank rk v r) = Some z"
        by simp
      have "two_cycle_state ([] @ to_push (raise_rank rk v r) r (entries a v)) (raise_rank rk v r)"
        using two_cycle_step [of a v r "[]" rk] a st q by simp
      with IH [OF run] a show False by blast
    qed
  qed
  with adj show ?thesis by simp
qed

text \<open>
  C1. The layout should end on every finite graph, cyclic ones included, and return a
  position for every node. On the two-node cycle A \<rightarrow> B \<rightarrow> A no node is without incoming
  edge, the queue is seeded with A at rank 0, and from then on every visit of one node
  re-queues the other one rank higher: the loop never ends and the layout returns nothing.
  The source announces a \<^verbatim>\<open>Simple cycle prevention\<close> and declares a set
  \<^verbatim>\<open>processed\<close> that it never uses.
\<close>

theorem two_cycle_no_layout:
  "getLayoutedElements two_cycle_nodes two_cycle_edges = None"
proof -
  have adj: "entries (build_adjacency two_cycle_nodes two_cycle_edges) ''A'' = [''B'']"
    "entries (build_adjacency two_cycle_nodes two_cycle_edges) ''B'' = [''A'']"
    by (simp_all add: two_cycle_nodes_def two_cycle_edges_def layout_eval)
  have q: "initial_queue two_cycle_nodes (build_inverseAdjacency two_cycle_nodes two_cycle_edges) = [(''A'', 0)]"
    by (simp add: two_cycle_nodes_def two_cycle_edges_def layout_eval)
  have st: "two_cycle_state [(''A'', 0)] Map.empty"
    by (simp add: two_cycle_state_def rank_at_most_def)
  have "final_ranks two_cycle_nodes two_cycle_edges = None"
  proof (cases "final_ranks two_cycle_nodes two_cycle_edges")
    case None
    then show ?thesis .
  next
    case (Some y)
    then have "rank_loop (build_adjacency two_cycle_nodes two_cycle_edges) [(''A'', 0)] Map.empty = Some y"
      by (simp add: final_ranks_def q)
    from two_cycle_never_returns [OF this adj] st show ?thesis by simp
  qed
  then show ?thesis by (simp add: getLayoutedElements_def)
qed


subsection \<open>Adjacency maps\<close>

lemma fold_init_adjacency:
  "fold (\<lambda>n m. m(bp_id n \<mapsto> [])) nodes m0 s =
     (if s \<in> bp_id ` set nodes then Some [] else m0 s)"
  by (induction nodes arbitrary: m0) auto

lemma init_adjacency_apply:
  "init_adjacency nodes s = (if s \<in> bp_id ` set nodes then Some [] else None)"
  by (simp add: init_adjacency_def fold_init_adjacency)

lemma fold_push_to:
  "fold (\<lambda>e m. push_to (src e) (tgt e) m) edges m0 s =
     (case m0 s of None \<Rightarrow> None
      | Some vs \<Rightarrow> Some (vs @ map tgt (filter (\<lambda>e. src e = s) edges)))"
proof (induction edges arbitrary: m0)
  case Nil
  then show ?case by (simp split: option.splits)
next
  case (Cons e edges)
  have "fold (\<lambda>e m. push_to (src e) (tgt e) m) (e # edges) m0 s =
        fold (\<lambda>e m. push_to (src e) (tgt e) m) edges (push_to (src e) (tgt e) m0) s"
    by simp
  also have "\<dots> = (case push_to (src e) (tgt e) m0 s of None \<Rightarrow> None
      | Some vs \<Rightarrow> Some (vs @ map tgt (filter (\<lambda>e. src e = s) edges)))"
    by (rule Cons.IH)
  also have "\<dots> = (case m0 s of None \<Rightarrow> None
      | Some vs \<Rightarrow> Some (vs @ map tgt (filter (\<lambda>e. src e = s) (e # edges))))"
    by (simp add: push_to_def split: option.splits)
  finally show ?case .
qed

lemma entries_build_adjacency:
  "entries (build_adjacency nodes edges) s =
     (if s \<in> bp_id ` set nodes then map be_target (filter (\<lambda>e. be_source e = s) edges) else [])"
  by (simp add: entries_def build_adjacency_def fold_push_to init_adjacency_apply)


lemma neighbour_rel_build_adjacency:
  "neighbour_rel (build_adjacency nodes edges) \<subseteq> (edge_rel edges)\<inverse>"
  by (force simp: neighbour_rel_def entries_build_adjacency edge_rel_def split: if_splits)

lemma wf_neighbour_rel:
  assumes "acyclic (edge_rel edges)"
  shows "wf (neighbour_rel (build_adjacency nodes edges))"
proof -
  have "finite ((edge_rel edges)\<inverse>)" by (simp add: edge_rel_def)
  moreover have "acyclic ((edge_rel edges)\<inverse>)" using assms by (simp add: acyclic_converse)
  ultimately have "wf ((edge_rel edges)\<inverse>)" by (rule finite_acyclic_wf)
  then show ?thesis
    using neighbour_rel_build_adjacency by (rule wf_subset)
qed

subsection \<open>The rank loop ends on a well-founded neighbour relation\<close>

lemma set_to_push: "fst ` set (to_push ranks rank neighbors) \<subseteq> set neighbors"
  by (auto simp: to_push_def)

lemma rank_loop_terminates:
  assumes wf: "wf (neighbour_rel adj)"
  shows "\<exists>res. rank_loop adj queue ranks = Some res"
proof -
  have "\<forall>queue ranks. mset (map fst queue) = M \<longrightarrow> (\<exists>res. rank_loop adj queue ranks = Some res)" for M
  proof (induction M rule: wf_induct_rule [OF wf_mult1 [OF wf]])
    case (1 M)
    show ?case
    proof (intro allI impI)
      fix queue :: "(string \<times> nat) list" and ranks :: "string \<rightharpoonup> nat"
      assume M: "mset (map fst queue) = M"
      show "\<exists>res. rank_loop adj queue ranks = Some res"
      proof (cases queue)
        case Nil
        then show ?thesis by (simp add: rank_loop.simps)
      next
        case (Cons p rest)
        obtain i rank where p: "p = (i, rank)" by (cases p)
        let ?q = "rest @ to_push (raise_rank ranks i rank) rank (entries adj i)"
        let ?K = "mset (map fst (to_push (raise_rank ranks i rank) rank (entries adj i)))"
        have K: "\<forall>b. b \<in># ?K \<longrightarrow> (b, i) \<in> neighbour_rel adj"
          using set_to_push [of "raise_rank ranks i rank" rank "entries adj i"]
          by (auto simp: neighbour_rel_def)
        have "M = add_mset i (mset (map fst rest))" using M Cons p by simp
        moreover have "mset (map fst ?q) = mset (map fst rest) + ?K" by simp
        ultimately have "(mset (map fst ?q), M) \<in> mult1 (neighbour_rel adj)"
          using K unfolding mult1_def by blast
        from 1 [OF this] obtain res where "rank_loop adj ?q (raise_rank ranks i rank) = Some res"
          by blast
        then show ?thesis
          by (subst rank_loop.simps) (simp add: Cons p)
      qed
    qed
  qed
  then show ?thesis by blast
qed


text \<open>So the layout returns on every acyclic edge set.\<close>

lemma acyclic_layout_returns:
  assumes "acyclic (edge_rel edges)"
  shows "\<exists>laid. getLayoutedElements nodes edges = Some (laid, edges)"
proof -
  from rank_loop_terminates [OF wf_neighbour_rel [OF assms]]
  obtain res where "final_ranks nodes edges = Some res"
    unfolding final_ranks_def by blast
  then show ?thesis by (simp add: getLayoutedElements_def Let_def)
qed

subsection \<open>What the rank loop has established when it ends\<close>












subsection \<open>Every node of an acyclic graph is visited\<close>





subsection \<open>Ranks along the edges of an acyclic graph\<close>





subsection \<open>Placing a column\<close>














subsection \<open>The loop over the ranks\<close>










subsection \<open>No overlap within a column\<close>





end
